theory Spec2Isabelle
  imports Main "HOL-Library.Word"
begin

section \<open>Organizations: membership, access resolution and the signature protocol\<close>

text \<open>
  A shallow embedding of \<^verbatim>\<open>packages/core/src/org.ts\<close>. Classes are records, the
  enum \<^verbatim>\<open>OrgRole\<close> is a datatype, a \<^verbatim>\<open>Uint8Array\<close> is a list of 8-bit words, a
  property that the code deletes or tests with \<^verbatim>\<open>!\<close> is an \<open>option\<close>, and a
  \<^verbatim>\<open>throw\<close> (or a rejected promise) is the \<open>Inl\<close> of a sum.
\<close>

subsection \<open>Data model\<close>

type_synonym bytes = "8 word list"

text \<open>\<^verbatim>\<open>enum OrgRole { Owner, Admin, Member, Suspended }\<close>, numbered from 0.\<close>

datatype OrgRole = Owner | Admin | Member | Suspended

fun roleNum :: "OrgRole \<Rightarrow> nat" where
  "roleNum Owner = 0"
| "roleNum Admin = 1"
| "roleNum Member = 2"
| "roleNum Suspended = 3"

text \<open>An entry \<^verbatim>\<open>{ id: VaultID; readonly: boolean }\<close> of a \<^verbatim>\<open>vaults\<close> array.\<close>

record vaultAssignment =
  va_id :: string
  va_readonly :: bool

text \<open>
  \<^verbatim>\<open>class OrgMember\<close>. The code tests \<^verbatim>\<open>!member.signature\<close>, so the signature may
  be absent; a \<^verbatim>\<open>Uint8Array\<close> is an object and therefore truthy even when empty, so
  only \<open>None\<close> is falsy.
\<close>

record OrgMember =
  m_id :: string
  m_name :: string
  m_email :: string
  m_publicKey :: bytes
  m_signature :: "bytes option"
  m_orgSignature :: "bytes option"
  m_vaults :: "vaultAssignment list"
  m_role :: OrgRole

text \<open>\<^verbatim>\<open>class Group\<close>; an entry \<^verbatim>\<open>{ id: AccountID }\<close> of \<^verbatim>\<open>members\<close> is its id.\<close>

record Group =
  g_name :: string
  g_members :: "string list"
  g_vaults :: "vaultAssignment list"

datatype OrgType = Basic | Team | Business

text \<open>
  The state that \<^verbatim>\<open>Org\<close> inherits from \<^verbatim>\<open>SharedContainer\<close> (\<^verbatim>\<open>./container\<close>, not part
  of the file): the field \<^verbatim>\<open>encryptedData\<close>, which \<^verbatim>\<open>rotateKeys\<close> deletes, and the rest
  of the container (accessors, content key), left abstract as \<open>'c\<close>.
\<close>

record 'c sharedContainer =
  encryptedData :: "bytes option"
  containerState :: 'c

text \<open>
  \<^verbatim>\<open>class Org\<close>. \<open>'p\<close> is \<^verbatim>\<open>RSASigningParams\<close> and \<open>'i\<close> is \<^verbatim>\<open>Invite\<close>, both declared
  outside the file. \<^verbatim>\<open>privateKey\<close> and \<^verbatim>\<open>invitesKey\<close> are deleted by \<^verbatim>\<open>lock\<close> and
  \<^verbatim>\<open>privateKey\<close> is tested with \<^verbatim>\<open>!\<close>, hence the options. The opaque records \<^verbatim>\<open>quota\<close>
  and \<^verbatim>\<open>billing\<close> are read and written by none of the methods below and are left out.
\<close>

record ('p, 'c, 'i) Org =
  org_id :: string
  org_type :: OrgType
  owner :: string
  org_name :: string
  publicKey :: bytes
  privateKey :: "bytes option"
  invitesKey :: "bytes option"
  signingParams :: 'p
  members :: "OrgMember list"
  groups :: "Group list"
  org_vaults :: "(string \<times> string) list"
  invites :: "'i list"
  revision :: string
  container :: "'c sharedContainer"

subsection \<open>Errors\<close>

text \<open>
  \<^verbatim>\<open>throw "..."\<close> throws a string; \<^verbatim>\<open>throw new Err(code, message)\<close> throws an \<^verbatim>\<open>Err\<close>.
  Of the codes of \<^verbatim>\<open>ErrorCode\<close> (\<^verbatim>\<open>./error\<close>) the file uses \<^verbatim>\<open>VERIFICATION_ERROR\<close> only.
\<close>

datatype ErrorCode = VERIFICATION_ERROR

datatype error = Thrown string | Err ErrorCode string

subsection \<open>JavaScript helpers: \<^verbatim>\<open>Array.prototype.find\<close>, \<^verbatim>\<open>Set\<close>\<close>

text \<open>\<^verbatim>\<open>xs.findIndex(p)\<close>, with \<open>None\<close> for \<^verbatim>\<open>-1\<close>.\<close>

fun findIndex :: "('a \<Rightarrow> bool) \<Rightarrow> 'a list \<Rightarrow> nat option" where
  "findIndex p [] = None"
| "findIndex p (x # xs) = (if p x then Some 0 else map_option Suc (findIndex p xs))"

text \<open>
  A \<^verbatim>\<open>Set\<close> keeps its elements in insertion order and ignores the insertion of an
  element it holds: \<open>setAdd\<close> is \<^verbatim>\<open>results.add(x)\<close>, \<open>newSet\<close> is \<^verbatim>\<open>new Set(xs)\<close>
  and the list itself is \<^verbatim>\<open>[...results]\<close>.
\<close>

definition setAdd :: "'a list \<Rightarrow> 'a \<Rightarrow> 'a list" where
  "setAdd results x = (if x \<in> set results then results else results @ [x])"

definition newSet :: "'a list \<Rightarrow> 'a list" where
  "newSet xs = foldl setAdd [] xs"

subsection \<open>Access resolver\<close>

text \<open>\<^verbatim>\<open>getMember({ id })\<close>: the first member with this id, or \<^verbatim>\<open>undefined\<close>.\<close>

definition getMember :: "('p, 'c, 'i) Org \<Rightarrow> string \<Rightarrow> OrgMember option" where
  "getMember org i = find (\<lambda>m. m_id m = i) (members org)"

definition isMember :: "('p, 'c, 'i) Org \<Rightarrow> string \<Rightarrow> bool" where
  "isMember org i = (getMember org i \<noteq> None)"

text \<open>\<^verbatim>\<open>getGroupsForMember({ id })\<close>\<close>

definition getGroupsForMember :: "('p, 'c, 'i) Org \<Rightarrow> string \<Rightarrow> Group list" where
  "getGroupsForMember org i = filter (\<lambda>g. list_ex (\<lambda>m. m = i) (g_members g)) (groups org)"

text \<open>\<^verbatim>\<open>getGroupsForVault({ id })\<close>\<close>

definition getGroupsForVault :: "('p, 'c, 'i) Org \<Rightarrow> string \<Rightarrow> Group list" where
  "getGroupsForVault org i = filter (\<lambda>group. list_ex (\<lambda>v. va_id v = i) (g_vaults group)) (groups org)"

text \<open>
  \<^verbatim>\<open>getVaultsForMember(acc)\<close>: throws the string when there is no member, otherwise
  collects the ids in a \<^verbatim>\<open>Set\<close>, the direct ones first, then group by group.
\<close>

definition getVaultsForMember :: "('p, 'c, 'i) Org \<Rightarrow> string \<Rightarrow> error + string list" where
  "getVaultsForMember org acc =
     (case getMember org acc of
        None \<Rightarrow> Inl (Thrown ''A member with this id does not exist!'')
      | Some member \<Rightarrow>
          Inr (foldl (\<lambda>results group. foldl (\<lambda>results vault. setAdd results (va_id vault)) results (g_vaults group))
                 (newSet (map va_id (m_vaults member)))
                 (getGroupsForMember org (m_id member))))"

text \<open>
  \<^verbatim>\<open>canRead\<close> and \<^verbatim>\<open>canWrite\<close> return \<^verbatim>\<open>member && ...\<close>: the value is \<^verbatim>\<open>undefined\<close>
  (\<open>None\<close>) when there is no member and a boolean otherwise. The array
  \<^verbatim>\<open>[member, ...groups]\<close> is only read through \<^verbatim>\<open>vaults\<close>, so it is the list of the
  \<^verbatim>\<open>vaults\<close> arrays.
\<close>

definition truthy :: "bool option \<Rightarrow> bool" where
  "truthy v = (v = Some True)"

definition canRead :: "('p, 'c, 'i) Org \<Rightarrow> string \<Rightarrow> string \<Rightarrow> bool option" where
  "canRead org vault account =
     (case getMember org account of
        None \<Rightarrow> None
      | Some member \<Rightarrow>
          Some (list_ex (\<lambda>vaults. list_ex (\<lambda>v. va_id v = vault) vaults)
                  (m_vaults member # map g_vaults (getGroupsForMember org (m_id member)))))"

definition canWrite :: "('p, 'c, 'i) Org \<Rightarrow> string \<Rightarrow> string \<Rightarrow> bool option" where
  "canWrite org vault acc =
     (case getMember org acc of
        None \<Rightarrow> None
      | Some member \<Rightarrow>
          Some (m_role member \<noteq> Suspended \<and>
                list_ex (\<lambda>vaults. list_ex (\<lambda>v. va_id v = vault \<and> \<not> va_readonly v) vaults)
                  (m_vaults member # map g_vaults (getGroupsForMember org (m_id member)))))"

text \<open>
  \<^verbatim>\<open>getMembersForGroup(group)\<close>: looks every id up and filters the \<^verbatim>\<open>undefined\<close>
  results out; the cast \<^verbatim>\<open>as OrgMember[]\<close> is \<open>the\<close>.
\<close>

definition getMembersForGroup :: "('p, 'c, 'i) Org \<Rightarrow> Group \<Rightarrow> OrgMember list" where
  "getMembersForGroup org grp =
     map the (filter (\<lambda>m. m \<noteq> None) (map (\<lambda>m. getMember org m) (g_members grp)))"

text \<open>
  \<^verbatim>\<open>getAccessors\<close> collects member objects in a \<^verbatim>\<open>Set<OrgMember>\<close>, which compares
  objects by identity, not by their fields. Every object that reaches the set is an
  element of \<^verbatim>\<open>this.members\<close> or \<^verbatim>\<open>undefined\<close>, so the identity of a member object
  is its position in \<^verbatim>\<open>this.members\<close>: \<open>getMemberRef\<close> is \<^verbatim>\<open>getMember\<close> returning
  the position, \<open>getMembersForVaultRefs\<close> is \<^verbatim>\<open>getMembersForVault\<close> returning positions.
  \<^verbatim>\<open>getMember(m)!\<close> is a type assertion with no effect when the program runs: an
  \<^verbatim>\<open>undefined\<close> result (\<open>None\<close>) is added to the set like any other value.
\<close>

definition getMemberRef :: "('p, 'c, 'i) Org \<Rightarrow> string \<Rightarrow> nat option" where
  "getMemberRef org i = findIndex (\<lambda>m. m_id m = i) (members org)"

definition getMembersForVaultRefs :: "('p, 'c, 'i) Org \<Rightarrow> string \<Rightarrow> nat list" where
  "getMembersForVaultRefs org i =
     filter (\<lambda>r. m_role (members org ! r) \<noteq> Suspended \<and>
                  list_ex (\<lambda>v. va_id v = i) (m_vaults (members org ! r)))
       [0 ..< length (members org)]"

definition getMembersForVault :: "('p, 'c, 'i) Org \<Rightarrow> string \<Rightarrow> OrgMember list" where
  "getMembersForVault org i =
     filter (\<lambda>member. m_role member \<noteq> Suspended \<and> list_ex (\<lambda>v. va_id v = i) (m_vaults member))
       (members org)"

definition deref :: "('p, 'c, 'i) Org \<Rightarrow> nat option \<Rightarrow> OrgMember option" where
  "deref org r = map_option (\<lambda>k. members org ! k) r"

definition getAccessorsRefs :: "('p, 'c, 'i) Org \<Rightarrow> string \<Rightarrow> nat option list" where
  "getAccessorsRefs org vault =
     foldl (\<lambda>results group. foldl (\<lambda>results m. setAdd results (getMemberRef org m)) results (g_members group))
       (newSet (map Some (getMembersForVaultRefs org vault)))
       (getGroupsForVault org vault)"

definition getAccessors :: "('p, 'c, 'i) Org \<Rightarrow> string \<Rightarrow> OrgMember option list" where
  "getAccessors org vault = map (deref org) (getAccessorsRefs org vault)"

subsection \<open>The environment: cryptographic provider, container, encoders\<close>

text \<open>
  Modelled from the spec: \<^verbatim>\<open>stringToBytes\<close> and \<^verbatim>\<open>concatBytes\<close> of \<^verbatim>\<open>./encoding\<close> are
  not part of the file. The spec calls the signed message "the exact byte concatenation
  of member id, member email, the single role byte, and raw public-key bytes": a string
  is modelled by its bytes (a \<open>char\<close> is a byte), and \<^verbatim>\<open>concatBytes\<close> appends its
  arguments in order.
\<close>

definition stringToBytes :: "string \<Rightarrow> bytes" where
  "stringToBytes s = map of_char s"

definition concatBytes :: "bytes list \<Rightarrow> bytes" where
  "concatBytes bs = concat bs"

text \<open>
  \<^verbatim>\<open>new Uint8Array([member.role])\<close>: the number of the role, as one byte. The field
  is declared \<^verbatim>\<open>OrgRole\<close> and the model keeps to the four roles; a number outside the
  enum, which the declaration excludes, would be stored modulo 256.
\<close>

definition roleByte :: "OrgRole \<Rightarrow> 8 word" where
  "roleByte r = of_nat (roleNum r)"

text \<open>
  What the methods call and the file does not define is a parameter:
  \<^item> the provider \<^verbatim>\<open>getProvider()\<close>: the outcomes of its two \<^verbatim>\<open>generateKey\<close> calls (the
    RSA one is \<^verbatim>\<open>{ privateKey, publicKey }\<close>, here the pair in that order), \<^verbatim>\<open>sign\<close> and
    \<^verbatim>\<open>verify\<close>; each may fail, and the failure is an \<open>error\<close>;
  \<^item> \<open>marshalKeys privateKey invitesKey\<close>, the payload
    \<^verbatim>\<open>stringToBytes(marshal({ privateKey: ..., invitesKey: ... }))\<close>;
  \<^item> the methods of \<^verbatim>\<open>SharedContainer\<close>: \<^verbatim>\<open>setData\<close>, \<^verbatim>\<open>updateAccessors\<close> (which reads
    \<^verbatim>\<open>id\<close> and \<^verbatim>\<open>publicKey\<close> of its arguments) and \<^verbatim>\<open>lock\<close>; they act on the inherited
    state and return it, also when they fail;
  \<^item> \<open>invite_lock\<close>, the method \<^verbatim>\<open>Invite.lock\<close>.
\<close>

record ('p, 'c, 'i) env =
  prov_generateKeyAES :: "error + bytes"
  prov_generateKeyRSA :: "error + bytes \<times> bytes"
  prov_sign :: "bytes \<Rightarrow> bytes \<Rightarrow> 'p \<Rightarrow> error + bytes"
  prov_verify :: "bytes \<Rightarrow> bytes \<Rightarrow> bytes \<Rightarrow> 'p \<Rightarrow> error + bool"
  marshalKeys :: "bytes \<Rightarrow> bytes \<Rightarrow> bytes"
  super_setData :: "bytes \<Rightarrow> 'c sharedContainer \<Rightarrow> (error + unit) \<times> 'c sharedContainer"
  super_updateAccessors ::
    "(string \<times> bytes) list \<Rightarrow> 'c sharedContainer \<Rightarrow> (error + unit) \<times> 'c sharedContainer"
  super_lock :: "'c sharedContainer \<Rightarrow> 'c sharedContainer"
  invite_lock :: "'i \<Rightarrow> 'i"

text \<open>
  \<^verbatim>\<open>Promise.all\<close> over promises that are all started before any is awaited: the values
  when none rejects, a rejection otherwise. The model reports the rejection that comes
  first in the array; which one the program reports depends on the order in which the
  provider settles the promises.
\<close>

fun promiseAll :: "(error + 'a) list \<Rightarrow> error + 'a list" where
  "promiseAll [] = Inr []"
| "promiseAll (r # rs) =
     (case r of
        Inl e \<Rightarrow> Inl e
      | Inr v \<Rightarrow> (case promiseAll rs of Inl e \<Rightarrow> Inl e | Inr vs \<Rightarrow> Inr (v # vs)))"

subsection \<open>Identity signature protocol\<close>

text \<open>The message that \<^verbatim>\<open>sign\<close> and \<^verbatim>\<open>verify\<close> both build.\<close>

definition signedBytes :: "OrgMember \<Rightarrow> bytes" where
  "signedBytes member =
     concatBytes [stringToBytes (m_id member), stringToBytes (m_email member),
                  [roleByte (m_role member)], m_publicKey member]"

text \<open>
  \<^verbatim>\<open>sign(member)\<close> assigns \<^verbatim>\<open>member.signature\<close> and returns the member; the model
  returns the member after the assignment. Nothing else of the organization changes.
\<close>

definition sign :: "('p, 'c, 'i) env \<Rightarrow> ('p, 'c, 'i) Org \<Rightarrow> OrgMember \<Rightarrow> error + OrgMember" where
  "sign env org member =
     (case privateKey org of
        None \<Rightarrow> Inl (Thrown ''Organisation needs to be unlocked first.'')
      | Some key \<Rightarrow>
          (case prov_sign env key (signedBytes member) (signingParams org) of
             Inl e \<Rightarrow> Inl e
           | Inr s \<Rightarrow> Inr (member\<lparr>m_signature := Some s\<rparr>)))"

definition verify :: "('p, 'c, 'i) env \<Rightarrow> ('p, 'c, 'i) Org \<Rightarrow> OrgMember \<Rightarrow> error + unit" where
  "verify env org member =
     (case m_signature member of
        None \<Rightarrow> Inl (Err VERIFICATION_ERROR ''No signed public key provided!'')
      | Some s \<Rightarrow>
          (case prov_verify env (publicKey org) s (signedBytes member) (signingParams org) of
             Inl e \<Rightarrow> Inl e
           | Inr verified \<Rightarrow>
               if \<not> verified
               then Inl (Err VERIFICATION_ERROR (''Failed to verify public key of '' @ m_name member @ ''!''))
               else Inr ()))"

text \<open>\<^verbatim>\<open>verifyAll(members = this.members.filter(m => m.role !== OrgRole.Suspended))\<close>\<close>

definition verifyAll ::
  "('p, 'c, 'i) env \<Rightarrow> ('p, 'c, 'i) Org \<Rightarrow> OrgMember list option \<Rightarrow> error + unit" where
  "verifyAll env org arg =
     (let ms = (case arg of
                  None \<Rightarrow> filter (\<lambda>m. m_role m \<noteq> Suspended) (members org)
                | Some ms \<Rightarrow> ms)
      in case promiseAll (map (\<lambda>obj. verify env org obj) ms) of
           Inl e \<Rightarrow> Inl e
         | Inr _ \<Rightarrow> Inr ())"

subsection \<open>Key material and rotation\<close>

text \<open>
  The methods below assign to fields of \<^verbatim>\<open>this\<close>: they take the organization and
  return the outcome together with the organization as the call leaves it, also when
  the call throws.
\<close>

definition generateKeys ::
  "('p, 'c, 'i) env \<Rightarrow> ('p, 'c, 'i) Org \<Rightarrow> (error + unit) \<times> ('p, 'c, 'i) Org" where
  "generateKeys env org =
     (case prov_generateKeyAES env of
        Inl e \<Rightarrow> (Inl e, org)
      | Inr ik \<Rightarrow>
          let org1 = org\<lparr>invitesKey := Some ik\<rparr> in
          (case prov_generateKeyRSA env of
             Inl e \<Rightarrow> (Inl e, org1)
           | Inr (sk, pk) \<Rightarrow>
               let org2 = org1\<lparr>privateKey := Some sk\<rparr>;
                   org3 = org2\<lparr>publicKey := pk\<rparr>;
                   (r, c) = super_setData env (marshalKeys env sk ik) (container org3)
               in (r, org3\<lparr>container := c\<rparr>)))"

text \<open>
  The last step of \<^verbatim>\<open>rotateKeys\<close>, \<^verbatim>\<open>Promise.all(this.members.map(each => this.sign(each)))\<close>:
  every \<^verbatim>\<open>sign\<close> is started; those that succeed assign their member's signature, also
  when another one rejects. The organization returned is the one after every started
  call has settled; when one rejects, the caller may see the rejection before the
  others have assigned.
\<close>

definition resignAll ::
  "('p, 'c, 'i) env \<Rightarrow> ('p, 'c, 'i) Org \<Rightarrow> (error + unit) \<times> ('p, 'c, 'i) Org" where
  "resignAll env org =
     (let rs = map (\<lambda>each. sign env org each) (members org);
          ms = map (\<lambda>(each, r). case r of Inl e \<Rightarrow> each | Inr member \<Rightarrow> member) (zip (members org) rs)
      in (case promiseAll rs of Inl e \<Rightarrow> Inl e | Inr _ \<Rightarrow> Inr (), org\<lparr>members := ms\<rparr>))"

definition rotateKeys ::
  "('p, 'c, 'i) env \<Rightarrow> bool \<Rightarrow> ('p, 'c, 'i) Org \<Rightarrow> (error + unit) \<times> ('p, 'c, 'i) Org" where
  "rotateKeys env force org =
     (case (if \<not> force then verifyAll env org None else Inr ()) of
        Inl e \<Rightarrow> (Inl e, org)
      | Inr _ \<Rightarrow>
          (case generateKeys env org of
             (Inl e, org1) \<Rightarrow> (Inl e, org1)
           | (Inr _, org1) \<Rightarrow>
               let org2 = org1\<lparr>container := (container org1)\<lparr>encryptedData := None\<rparr>\<rparr>;
                   owners = filter (\<lambda>m. m_role m = Owner) (members org2)
               in (case super_updateAccessors env (map (\<lambda>m. (m_id m, m_publicKey m)) owners) (container org2) of
                     (Inl e, c) \<Rightarrow> (Inl e, org2\<lparr>container := c\<rparr>)
                   | (Inr _, c) \<Rightarrow> resignAll env (org2\<lparr>container := c\<rparr>))))"

text \<open>
  \<^verbatim>\<open>lock()\<close>. The last statement is \<^verbatim>\<open>this.invites.forEach(invite => invite.lock)\<close>: the
  callback reads the property \<^verbatim>\<open>lock\<close> of the invite and does not call it, so each
  step of the loop leaves the state as it is.
\<close>

definition lock :: "('p, 'c, 'i) env \<Rightarrow> ('p, 'c, 'i) Org \<Rightarrow> ('p, 'c, 'i) Org" where
  "lock env org =
     (let org1 = org\<lparr>container := super_lock env (container org)\<rparr>;
          org2 = org1\<lparr>privateKey := None\<rparr>;
          org3 = org2\<lparr>invitesKey := None\<rparr>
      in foldl (\<lambda>state invite. state) org3 (invites org3))"

subsection \<open>Assumptions on the cryptographic provider\<close>

text \<open>
  The provider is outside the program. What the claims on signatures assume of it is
  stated here, for the keys and the parameters a theorem is about:
  \<^item> \<open>keyPairCorrect\<close>: a signature made with \<open>sk\<close> is accepted under \<open>pk\<close> for
    the message that was signed;
  \<^item> \<open>rejectsForeign\<close>: a signature made with \<open>sk\<close> is rejected under \<open>pk\<close>, which
    belongs to another key pair.
\<close>

definition keyPairCorrect :: "('p, 'c, 'i) env \<Rightarrow> bytes \<Rightarrow> bytes \<Rightarrow> 'p \<Rightarrow> bool" where
  "keyPairCorrect env sk pk params =
     (\<forall>msg s. prov_sign env sk msg params = Inr s \<longrightarrow> prov_verify env pk s msg params = Inr True)"

definition rejectsForeign :: "('p, 'c, 'i) env \<Rightarrow> bytes \<Rightarrow> bytes \<Rightarrow> 'p \<Rightarrow> bool" where
  "rejectsForeign env sk pk params =
     (\<forall>msg s msg'. prov_sign env sk msg params = Inr s \<longrightarrow>
        prov_verify env pk s msg' params = Inr False)"

subsection \<open>A concrete organization\<close>

text \<open>
  An environment and an organization on which the theorems are run. The provider signs
  by prefixing the message with the key and verifies by comparing, with equal private
  and public key: it is correct and rejects foreign keys. The next
  \<^verbatim>\<open>generateKey\<close> calls return the invite key \<open>[7]\<close> and the key pair \<open>([2], [2])\<close>.
  The container stores the payload as it is. An invite is modelled by one flag, whether
  it holds its decrypted secret, and locking an invite clears the flag.
\<close>

definition toyEnv :: "(unit, unit, bool) env" where
  "toyEnv =
     \<lparr> prov_generateKeyAES = Inr [7],
       prov_generateKeyRSA = Inr ([2], [2]),
       prov_sign = (\<lambda>sk msg params. Inr (sk @ msg)),
       prov_verify = (\<lambda>pk s msg params. Inr (s = pk @ msg)),
       marshalKeys = (\<lambda>sk ik. sk @ ik),
       super_setData = (\<lambda>d c. (Inr (), c\<lparr>encryptedData := Some d\<rparr>)),
       super_updateAccessors = (\<lambda>subjects c. (Inr (), c)),
       super_lock = (\<lambda>c. c),
       invite_lock = (\<lambda>invite. False) \<rparr>"

text \<open>
  Alice is an owner with read-only direct access to vault \<open>v1\<close>, signed under the
  key \<open>[1]\<close>. Bob is suspended, unsigned, with direct write access to \<open>v2\<close>. The group
  \<open>devs\<close> has write access to \<open>v1\<close> and lists Bob, an id without member record, and
  Alice.
\<close>

definition alice0 :: OrgMember where
  "alice0 =
     \<lparr> m_id = ''alice'', m_name = ''Alice'', m_email = ''alice@example.org'',
       m_publicKey = [10, 11], m_signature = None, m_orgSignature = Some [5],
       m_vaults = [\<lparr> va_id = ''v1'', va_readonly = True \<rparr>], m_role = Owner \<rparr>"

definition alice :: OrgMember where
  "alice = alice0\<lparr>m_signature := Some ([1] @ signedBytes alice0)\<rparr>"

definition bob :: OrgMember where
  "bob =
     \<lparr> m_id = ''bob'', m_name = ''Bob'', m_email = ''bob@example.org'',
       m_publicKey = [20, 21], m_signature = None, m_orgSignature = Some [6],
       m_vaults = [\<lparr> va_id = ''v2'', va_readonly = False \<rparr>], m_role = Suspended \<rparr>"

definition devs :: Group where
  "devs =
     \<lparr> g_name = ''devs'', g_members = [''bob'', ''ghost'', ''alice''],
       g_vaults = [\<lparr> va_id = ''v1'', va_readonly = False \<rparr>] \<rparr>"

definition exampleOrg :: "(unit, unit, bool) Org" where
  "exampleOrg =
     \<lparr> org_id = ''org'', org_type = Team, owner = ''alice'', org_name = ''Example'',
       publicKey = [1], privateKey = Some [1], invitesKey = Some [9], signingParams = (),
       members = [alice, bob], groups = [devs],
       org_vaults = [(''v1'', ''Servers''), (''v2'', ''Mail'')],
       invites = [True], revision = ''r1'',
       container = \<lparr> encryptedData = Some [1, 9], containerState = () \<rparr> \<rparr>"

text \<open>
  Carol was signed as a plain member; afterwards her role was set to \<open>Admin\<close> without
  signing again.
\<close>

definition carol0 :: OrgMember where
  "carol0 =
     \<lparr> m_id = ''carol'', m_name = ''Carol'', m_email = ''carol@example.org'',
       m_publicKey = [30], m_signature = None, m_orgSignature = Some [7],
       m_vaults = [], m_role = Member \<rparr>"

definition carol :: OrgMember where
  "carol = carol0\<lparr>m_signature := Some ([1] @ signedBytes carol0), m_role := Admin\<rparr>"

definition tamperedOrg :: "(unit, unit, bool) Org" where
  "tamperedOrg = exampleOrg\<lparr>members := [alice, bob, carol]\<rparr>"

text \<open>The organization after \<^verbatim>\<open>lock()\<close>: no private key, no invite key.\<close>

definition lockedOrg :: "(unit, unit, bool) Org" where
  "lockedOrg = exampleOrg\<lparr>privateKey := None, invitesKey := None\<rparr>"

text \<open>
  Ann, and Ann with the last letter of the id taken from the front of the email
  address: another id, another email address, the same signed bytes.
\<close>

definition ann :: OrgMember where
  "ann =
     \<lparr> m_id = ''ann'', m_name = ''Ann'', m_email = ''a@example.org'',
       m_publicKey = [40], m_signature = None, m_orgSignature = Some [8],
       m_vaults = [], m_role = Member \<rparr>"

definition annSigned :: OrgMember where
  "annSigned = ann\<lparr>m_signature := Some ([1] @ signedBytes ann)\<rparr>"

definition annMoved :: OrgMember where
  "annMoved = annSigned\<lparr>m_id := ''anna'', m_email := ''@example.org''\<rparr>"

text \<open>The example organization as \<^verbatim>\<open>rotateKeys()\<close> leaves it.\<close>

definition rotatedOrg :: "(unit, unit, bool) Org" where
  "rotatedOrg = snd (rotateKeys toyEnv False exampleOrg)"

section \<open>Lemmas\<close>

subsection \<open>Lemmas on the helpers\<close>

lemma set_foldl_setAdd: "set (foldl setAdd acc xs) = set acc \<union> set xs"
  by (induction xs arbitrary: acc) (auto simp: setAdd_def)

lemma distinct_foldl_setAdd: "distinct acc \<Longrightarrow> distinct (foldl setAdd acc xs)"
  by (induction xs arbitrary: acc) (auto simp: setAdd_def)

lemma set_newSet: "set (newSet xs) = set xs"
  by (simp add: newSet_def set_foldl_setAdd)

lemma distinct_newSet: "distinct (newSet xs)"
  by (simp add: newSet_def distinct_foldl_setAdd)

lemma set_foldl_setAdd_map: "set (foldl (\<lambda>r x. setAdd r (f x)) acc xs) = set acc \<union> f ` set xs"
  by (induction xs arbitrary: acc) (auto simp: setAdd_def)

lemma distinct_foldl_setAdd_map:
  "distinct acc \<Longrightarrow> distinct (foldl (\<lambda>r x. setAdd r (f x)) acc xs)"
  by (induction xs arbitrary: acc) (auto simp: setAdd_def)

lemma set_foldl_nested:
  "set (foldl (\<lambda>r g. foldl (\<lambda>r x. setAdd r (f x)) r (items g)) acc gs)
     = set acc \<union> (\<Union>g \<in> set gs. f ` set (items g))"
  by (induction gs arbitrary: acc) (auto simp: set_foldl_setAdd_map)

lemma distinct_foldl_nested:
  "distinct acc \<Longrightarrow> distinct (foldl (\<lambda>r g. foldl (\<lambda>r x. setAdd r (f x)) r (items g)) acc gs)"
  by (induction gs arbitrary: acc) (auto simp: distinct_foldl_setAdd_map)

subsection \<open>Lemmas on the resolver\<close>

lemma getMember_SomeD: "getMember org i = Some m \<Longrightarrow> m_id m = i \<and> m \<in> set (members org)"
  by (auto simp: getMember_def find_Some_iff)

lemma getMember_None_iff: "getMember org i = None \<longleftrightarrow> (\<forall>m \<in> set (members org). m_id m \<noteq> i)"
  by (auto simp: getMember_def find_None_iff)

lemma nth_findIndex: "map_option (\<lambda>k. xs ! k) (findIndex p xs) = find p xs"
  by (induction xs) (auto simp: option.map_comp comp_def)

lemma deref_getMemberRef: "deref org (getMemberRef org i) = getMember org i"
  by (simp add: deref_def getMemberRef_def getMember_def nth_findIndex)

lemma getMembersForVault_refs:
  "map (\<lambda>r. members org ! r) (getMembersForVaultRefs org i) = getMembersForVault org i"
proof -
  let ?P = "\<lambda>member. m_role member \<noteq> Suspended \<and> list_ex (\<lambda>v. va_id v = i) (m_vaults member)"
  have "map (\<lambda>r. members org ! r) (filter (?P \<circ> (\<lambda>r. members org ! r)) [0 ..< length (members org)])
          = filter ?P (map (\<lambda>r. members org ! r) [0 ..< length (members org)])"
    by (simp only: filter_map)
  also have "\<dots> = filter ?P (members org)"
    by (simp only: map_nth)
  finally show ?thesis
    by (simp add: getMembersForVaultRefs_def getMembersForVault_def comp_def)
qed

lemma set_getAccessorsRefs:
  "set (getAccessorsRefs org vault)
     = Some ` set (getMembersForVaultRefs org vault)
       \<union> (\<Union>g \<in> set (getGroupsForVault org vault). getMemberRef org ` set (g_members g))"
  by (simp add: getAccessorsRefs_def set_foldl_nested set_newSet)

lemma set_getAccessors:
  "set (getAccessors org vault)
     = Some ` set (getMembersForVault org vault)
       \<union> (\<Union>g \<in> set (getGroupsForVault org vault). getMember org ` set (g_members g))"
proof -
  have "deref org ` Some ` set (getMembersForVaultRefs org vault)
          = Some ` set (map (\<lambda>r. members org ! r) (getMembersForVaultRefs org vault))"
    by (auto simp: deref_def image_iff)
  moreover have "deref org ` getMemberRef org ` A = getMember org ` A" for A
    by (simp add: image_image deref_getMemberRef)
  ultimately show ?thesis
    by (simp add: getAccessors_def set_getAccessorsRefs image_Un image_UN getMembersForVault_refs)
qed

lemma distinct_getAccessorsRefs: "distinct (getAccessorsRefs org vault)"
  by (simp add: getAccessorsRefs_def distinct_foldl_nested distinct_newSet)

subsection \<open>Lemmas on \<^verbatim>\<open>Promise.all\<close> and on the signed bytes\<close>

lemma promiseAll_Inl_mem: "promiseAll rs = Inl e \<Longrightarrow> Inl e \<in> set rs"
  by (induction rs) (auto split: sum.splits)

lemma promiseAll_rejects: "Inl e \<in> set rs \<Longrightarrow> \<exists>e'. promiseAll rs = Inl e'"
  by (induction rs) (auto split: sum.splits)

lemma promiseAll_Inr: "promiseAll rs = Inr vs \<Longrightarrow> rs = map Inr vs"
  by (induction rs arbitrary: vs) (auto split: sum.splits)

lemma signedBytes_shift:
  "signedBytes (m\<lparr>m_id := a @ b, m_email := c\<rparr>) = signedBytes (m\<lparr>m_id := a, m_email := b @ c\<rparr>)"
  by (simp add: signedBytes_def concatBytes_def stringToBytes_def)

lemma verify_same_bytes:
  assumes "signedBytes m2 = signedBytes m1" and "m_signature m2 = m_signature m1"
    and "verify env org m1 = Inr ()"
  shows "verify env org m2 = Inr ()"
  using assms by (auto simp: verify_def split: option.splits sum.splits if_splits)

lemma verify_accepts_moved_bytes:
  assumes "verify env org m1 = Inr ()" and "m_id m1 = a @ b"
  shows "verify env org (m1\<lparr>m_id := a, m_email := b @ m_email m1\<rparr>) = Inr ()"
proof (rule verify_same_bytes [where ?m1.0 = m1])
  have "m1 = m1\<lparr>m_id := a @ b, m_email := m_email m1\<rparr>"
    using assms(2) by simp
  then show "signedBytes (m1\<lparr>m_id := a, m_email := b @ m_email m1\<rparr>) = signedBytes m1"
    using signedBytes_shift [where m = m1 and a = a and b = b and c = "m_email m1"] by simp
  show "m_signature (m1\<lparr>m_id := a, m_email := b @ m_email m1\<rparr>) = m_signature m1"
    by simp
  show "verify env org m1 = Inr ()"
    by (rule assms(1))
qed


lemma foldl_unchanged: "foldl (\<lambda>state invite. state) s xs = s"
  by (induction xs) simp_all

lemma lock_fields:
  "privateKey (lock env org) = None \<and> invitesKey (lock env org) = None \<and>
   invites (lock env org) = invites org"
  by (simp add: lock_def Let_def foldl_unchanged)

subsection \<open>Lemmas on verification and rotation\<close>

lemma verify_cases:
  "verify env org m = Inr () \<or> (\<exists>e. verify env org m = Inl e)"
  by (cases "verify env org m") auto

lemma verifyAll_rejects:
  assumes "m \<in> set (members org)" "m_role m \<noteq> Suspended" "verify env org m \<noteq> Inr ()"
  shows "\<exists>e m'. m' \<in> set (members org) \<and> m_role m' \<noteq> Suspended \<and> verify env org m' = Inl e \<and>
           verifyAll env org None = Inl e"
proof -
  let ?ms = "filter (\<lambda>m. m_role m \<noteq> Suspended) (members org)"
  let ?rs = "map (\<lambda>obj. verify env org obj) ?ms"
  from assms(3) obtain e0 where "verify env org m = Inl e0"
    using verify_cases [of env org m] by auto
  with assms(1,2) have "Inl e0 \<in> set ?rs"
    by (auto simp: image_iff intro!: bexI [of _ m])
  then obtain e where e: "promiseAll ?rs = Inl e"
    using promiseAll_rejects by blast
  then have "Inl e \<in> set ?rs"
    by (rule promiseAll_Inl_mem)
  then obtain m' where "m' \<in> set ?ms" "verify env org m' = Inl e"
    by auto
  with e show ?thesis
    by (auto simp: verifyAll_def)
qed

lemma generateKeys_success:
  assumes "generateKeys env org = (Inr u, org1)"
  shows "\<exists>ik sk pk c. prov_generateKeyAES env = Inr ik \<and> prov_generateKeyRSA env = Inr (sk, pk) \<and>
           org1 = org\<lparr>invitesKey := Some ik, privateKey := Some sk, publicKey := pk, container := c\<rparr>"
  using assms
  by (auto simp: generateKeys_def Let_def split: sum.splits prod.splits)

lemma sign_success:
  assumes "sign env org m = Inr m'"
  shows "\<exists>sk s. privateKey org = Some sk \<and>
           prov_sign env sk (signedBytes m) (signingParams org) = Inr s \<and>
           m' = m\<lparr>m_signature := Some s\<rparr>"
  using assms by (auto simp: sign_def split: option.splits sum.splits)

lemma signedBytes_signature [simp]: "signedBytes (m\<lparr>m_signature := s\<rparr>) = signedBytes m"
  by (simp add: signedBytes_def)

lemma keep_resigned:
  "length xs = length vs \<Longrightarrow>
   map (\<lambda>(each, r). case r of Inl e \<Rightarrow> each | Inr member \<Rightarrow> member) (zip xs (map Inr vs)) = vs"
  by (induction xs vs rule: list_induct2) simp_all

lemma resignAll_success:
  assumes "resignAll env org = (Inr u, org')"
  shows "org' = org\<lparr>members := members org'\<rparr> \<and> length (members org') = length (members org) \<and>
         (\<forall>k < length (members org). sign env org (members org ! k) = Inr (members org' ! k))"
proof -
  let ?rs = "map (\<lambda>each. sign env org each) (members org)"
  from assms obtain vs where vs: "promiseAll ?rs = Inr vs"
    by (auto simp: resignAll_def Let_def split: sum.splits)
  then have rs: "?rs = map Inr vs"
    by (rule promiseAll_Inr)
  then have len: "length (members org) = length vs"
    by (metis length_map)
  have "org' = org\<lparr>members := map (\<lambda>(each, r). case r of Inl e \<Rightarrow> each | Inr member \<Rightarrow> member)
                                   (zip (members org) ?rs)\<rparr>"
    using assms by (auto simp: resignAll_def Let_def split: sum.splits)
  then have org': "org' = org\<lparr>members := vs\<rparr>"
    by (simp only: rs keep_resigned [OF len])
  have "sign env org (members org ! k) = Inr (vs ! k)" if "k < length (members org)" for k
  proof -
    have "?rs ! k = map Inr vs ! k" by (simp only: rs)
    with that len show ?thesis by simp
  qed
  with org' len show ?thesis by simp
qed

lemma rotateKeys_success:
  assumes "rotateKeys env force org = (Inr u, org')"
  shows "\<exists>ik sk pk c. prov_generateKeyAES env = Inr ik \<and> prov_generateKeyRSA env = Inr (sk, pk) \<and>
           org' = org\<lparr>invitesKey := Some ik, privateKey := Some sk, publicKey := pk,
                      container := c, members := members org'\<rparr> \<and>
           length (members org') = length (members org) \<and>
           (\<forall>k < length (members org). \<exists>s.
              prov_sign env sk (signedBytes (members org ! k)) (signingParams org) = Inr s \<and>
              members org' ! k = (members org ! k)\<lparr>m_signature := Some s\<rparr>)"
proof -
  from assms obtain u1 org1 where g: "generateKeys env org = (Inr u1, org1)"
    by (auto simp: rotateKeys_def split: sum.splits prod.splits if_splits)
  from generateKeys_success [OF g] obtain ik sk pk c where
    keys: "prov_generateKeyAES env = Inr ik" "prov_generateKeyRSA env = Inr (sk, pk)" and
    org1: "org1 = org\<lparr>invitesKey := Some ik, privateKey := Some sk, publicKey := pk, container := c\<rparr>"
    by blast
  from assms g obtain c' where
    r: "resignAll env (org1\<lparr>container := c'\<rparr>) = (Inr u, org')"
    by (auto simp: rotateKeys_def Let_def split: sum.splits prod.splits if_splits)
  let ?org2 = "org1\<lparr>container := c'\<rparr>"
  from resignAll_success [OF r] have
    a: "org' = ?org2\<lparr>members := members org'\<rparr>" and
    b: "length (members org') = length (members ?org2)" and
    c: "\<forall>k < length (members ?org2). sign env ?org2 (members ?org2 ! k) = Inr (members org' ! k)"
    by blast+
  have "\<exists>s. prov_sign env sk (signedBytes (members org ! k)) (signingParams org) = Inr s \<and>
              members org' ! k = (members org ! k)\<lparr>m_signature := Some s\<rparr>"
    if "k < length (members org)" for k
  proof -
    from that c have "sign env ?org2 (members ?org2 ! k) = Inr (members org' ! k)"
      by (simp add: org1)
    from sign_success [OF this] show ?thesis
      by (auto simp: org1)
  qed
  moreover have "org' = org\<lparr>invitesKey := Some ik, privateKey := Some sk, publicKey := pk,
                      container := c', members := members org'\<rparr>"
    using a by (simp add: org1)
  moreover have "length (members org') = length (members org)"
    using b by (simp add: org1)
  ultimately show ?thesis
    using keys by blast
qed

subsection \<open>Lemmas on the concrete organization\<close>

lemmas example_defs =
  toyEnv_def exampleOrg_def tamperedOrg_def lockedOrg_def alice_def alice0_def bob_def
  carol_def carol0_def devs_def ann_def annSigned_def annMoved_def
  signedBytes_def concatBytes_def stringToBytes_def

lemma toyEnv_keyPairCorrect: "keyPairCorrect toyEnv k k ()"
  by (auto simp: keyPairCorrect_def toyEnv_def)

lemma toyEnv_rejectsForeign: "rejectsForeign toyEnv [2] [1] ()"
  by (auto simp: rejectsForeign_def toyEnv_def)

lemma verify_alice: "verify toyEnv tamperedOrg alice = Inr ()"
  by (simp add: verify_def example_defs)

lemma verify_carol:
  "verify toyEnv tamperedOrg carol = Inl (Err VERIFICATION_ERROR ''Failed to verify public key of Carol!'')"
  by (simp add: verify_def example_defs roleByte_def)

lemma rotate_example: "rotateKeys toyEnv False exampleOrg = (Inr (), rotatedOrg)"
proof -
  have "fst (rotateKeys toyEnv False exampleOrg) = Inr ()"
    by (simp add: rotateKeys_def verifyAll_def verify_def generateKeys_def resignAll_def sign_def
          example_defs)
  then show ?thesis
    by (simp add: rotatedOrg_def prod_eq_iff)
qed

lemma rotatedOrg_members:
  "members rotatedOrg = [alice0\<lparr>m_signature := Some ([2] @ signedBytes alice0)\<rparr>,
                         bob\<lparr>m_signature := Some ([2] @ signedBytes bob)\<rparr>]"
  by (simp add: rotatedOrg_def rotateKeys_def verifyAll_def verify_def generateKeys_def resignAll_def
        sign_def example_defs)

lemma rotatedOrg_keys: "privateKey rotatedOrg = Some [2] \<and> publicKey rotatedOrg = [2]"
  by (simp add: rotatedOrg_def rotateKeys_def verifyAll_def verify_def generateKeys_def resignAll_def
        sign_def example_defs)


lemma getMember_example:
  "getMember exampleOrg ''alice'' = Some alice"
  "getMember exampleOrg ''bob'' = Some bob"
  "getMember exampleOrg ''ghost'' = None"
  by (simp_all add: getMember_def example_defs)

section \<open>The claims\<close>

subsection \<open>Key rotation\<close>

text \<open>
  \<^bold>\<open>Claim C1.\<close> \<^verbatim>\<open>rotateKeys(force = false)\<close> first verifies the non-suspended members
  under the current public key. When one of them does not verify, the call ends with
  the error of a non-suspended member that failed, and the organization it leaves is
  the organization it found: in particular \<^verbatim>\<open>publicKey\<close>, \<^verbatim>\<open>privateKey\<close> and
  \<^verbatim>\<open>invitesKey\<close> are the old ones.
\<close>

theorem rotateKeys_precheck_abort:
  assumes "m \<in> set (members org)" and "m_role m \<noteq> Suspended" and "verify env org m \<noteq> Inr ()"
  shows "\<exists>e m'. m' \<in> set (members org) \<and> m_role m' \<noteq> Suspended \<and> verify env org m' = Inl e \<and>
           rotateKeys env False org = (Inl e, org) \<and>
           publicKey (snd (rotateKeys env False org)) = publicKey org \<and>
           privateKey (snd (rotateKeys env False org)) = privateKey org \<and>
           invitesKey (snd (rotateKeys env False org)) = invitesKey org"
proof -
  from verifyAll_rejects [OF assms] obtain e m' where
    "m' \<in> set (members org)" "m_role m' \<noteq> Suspended" "verify env org m' = Inl e"
    "verifyAll env org None = Inl e"
    by blast
  moreover from this have "rotateKeys env False org = (Inl e, org)"
    by (simp add: rotateKeys_def)
  ultimately show ?thesis by auto
qed

text \<open>
  On the organization with Carol, whose role was changed after signing, the rotation
  stops with Carol's verification error and the keys \<open>[1]\<close>, \<open>[1]\<close>, \<open>[9]\<close> stay.
\<close>

theorem rotateKeys_precheck_abort_witness:
  "rotateKeys toyEnv False tamperedOrg =
     (Inl (Err VERIFICATION_ERROR ''Failed to verify public key of Carol!''), tamperedOrg) \<and>
   publicKey (snd (rotateKeys toyEnv False tamperedOrg)) = [1] \<and>
   privateKey (snd (rotateKeys toyEnv False tamperedOrg)) = Some [1] \<and>
   invitesKey (snd (rotateKeys toyEnv False tamperedOrg)) = Some [9]"
proof -
  have h1: "carol \<in> set (members tamperedOrg)"
    by (simp add: tamperedOrg_def)
  have h2: "m_role carol \<noteq> Suspended"
    by (simp add: carol_def)
  have h3: "verify toyEnv tamperedOrg carol \<noteq> Inr ()"
    by (simp add: verify_carol)
  from rotateKeys_precheck_abort [OF h1 h2 h3] obtain e m' where
    m': "m' \<in> set (members tamperedOrg)" "m_role m' \<noteq> Suspended" "verify toyEnv tamperedOrg m' = Inl e"
    and r: "rotateKeys toyEnv False tamperedOrg = (Inl e, tamperedOrg)"
    by blast
  from m'(1,2) have "m' = alice \<or> m' = carol"
    by (auto simp: tamperedOrg_def bob_def)
  with m'(3) have "e = Err VERIFICATION_ERROR ''Failed to verify public key of Carol!''"
    by (auto simp: verify_alice verify_carol)
  with r show ?thesis
    by (simp add: tamperedOrg_def exampleOrg_def)
qed

text \<open>
  \<^bold>\<open>Claim C2.\<close> When \<^verbatim>\<open>rotateKeys\<close> succeeds, forced or not, the private and public
  key of the organization are the pair the provider generated, the member list has its
  old length, and every member, suspended or not, is the old member with the signature
  the provider made with the new private key over the member's signed bytes. Hence, for
  a provider whose new key pair is correct, every member verifies under the new public
  key; and for a provider under which the old public key rejects signatures of the new
  private key, no member verifies under the old public key: the failure is the
  verification error with the member's name.
\<close>

theorem rotateKeys_resigns_every_member:
  assumes "rotateKeys env force org = (Inr (), org')"
  shows "\<exists>sk. privateKey org' = Some sk \<and> prov_generateKeyRSA env = Inr (sk, publicKey org') \<and>
           length (members org') = length (members org) \<and>
           (\<forall>k < length (members org). \<exists>s.
              prov_sign env sk (signedBytes (members org ! k)) (signingParams org) = Inr s \<and>
              members org' ! k = (members org ! k)\<lparr>m_signature := Some s\<rparr>) \<and>
           (keyPairCorrect env sk (publicKey org') (signingParams org) \<longrightarrow>
              (\<forall>m \<in> set (members org'). verify env org' m = Inr ())) \<and>
           (rejectsForeign env sk (publicKey org) (signingParams org) \<longrightarrow>
              (\<forall>m \<in> set (members org'). verify env org m =
                 Inl (Err VERIFICATION_ERROR (''Failed to verify public key of '' @ m_name m @ ''!''))))"
proof -
  from rotateKeys_success [OF assms] obtain ik sk pk c where
    keys: "prov_generateKeyRSA env = Inr (sk, pk)" and
    org': "org' = org\<lparr>invitesKey := Some ik, privateKey := Some sk, publicKey := pk,
                      container := c, members := members org'\<rparr>" and
    len: "length (members org') = length (members org)" and
    sig: "\<forall>k < length (members org). \<exists>s.
              prov_sign env sk (signedBytes (members org ! k)) (signingParams org) = Inr s \<and>
              members org' ! k = (members org ! k)\<lparr>m_signature := Some s\<rparr>"
    by blast
  have sk: "privateKey org' = Some sk" and pk: "publicKey org' = pk"
    and params: "signingParams org' = signingParams org"
    by (subst org', simp)+
  have each: "\<exists>s. prov_sign env sk (signedBytes m) (signingParams org) = Inr s \<and> m_signature m = Some s"
    if "m \<in> set (members org')" for m
  proof -
    from that obtain k where k: "k < length (members org')" "m = members org' ! k"
      by (auto simp: in_set_conv_nth)
    with sig len obtain s where
      "prov_sign env sk (signedBytes (members org ! k)) (signingParams org) = Inr s"
      "members org' ! k = (members org ! k)\<lparr>m_signature := Some s\<rparr>"
      by auto
    with k show ?thesis by simp
  qed
  have new: "verify env org' m = Inr ()"
    if "keyPairCorrect env sk (publicKey org') (signingParams org)" "m \<in> set (members org')" for m
    using each [OF that(2)] that(1)
    by (auto simp: verify_def keyPairCorrect_def params)
  have old: "verify env org m = Inl (Err VERIFICATION_ERROR (''Failed to verify public key of '' @ m_name m @ ''!''))"
    if "rejectsForeign env sk (publicKey org) (signingParams org)" "m \<in> set (members org')" for m
    using each [OF that(2)] that(1)
    by (auto simp: verify_def rejectsForeign_def)
  from keys sk pk len sig new old show ?thesis
    by blast
qed

text \<open>
  The example organization rotates from the key \<open>[1]\<close> to the key \<open>[2]\<close>: Alice and
  the suspended Bob verify under the new key and fail under the old one.
\<close>

theorem rotateKeys_resigns_every_member_witness:
  "rotateKeys toyEnv False exampleOrg = (Inr (), rotatedOrg) \<and>
   m_role (members rotatedOrg ! 1) = Suspended \<and>
   verify toyEnv rotatedOrg (members rotatedOrg ! 0) = Inr () \<and>
   verify toyEnv rotatedOrg (members rotatedOrg ! 1) = Inr () \<and>
   verify toyEnv exampleOrg (members rotatedOrg ! 0) =
     Inl (Err VERIFICATION_ERROR ''Failed to verify public key of Alice!'') \<and>
   verify toyEnv exampleOrg (members rotatedOrg ! 1) =
     Inl (Err VERIFICATION_ERROR ''Failed to verify public key of Bob!'')"
proof -
  from rotateKeys_resigns_every_member [OF rotate_example] obtain sk where
    sk: "privateKey rotatedOrg = Some sk" and
    new: "keyPairCorrect toyEnv sk (publicKey rotatedOrg) (signingParams exampleOrg) \<longrightarrow>
            (\<forall>m \<in> set (members rotatedOrg). verify toyEnv rotatedOrg m = Inr ())" and
    old: "rejectsForeign toyEnv sk (publicKey exampleOrg) (signingParams exampleOrg) \<longrightarrow>
            (\<forall>m \<in> set (members rotatedOrg). verify toyEnv exampleOrg m =
               Inl (Err VERIFICATION_ERROR (''Failed to verify public key of '' @ m_name m @ ''!'')))"
    by blast
  from sk have sk2: "sk = [2]"
    by (simp add: rotatedOrg_keys)
  have "keyPairCorrect toyEnv sk (publicKey rotatedOrg) (signingParams exampleOrg)"
    by (simp add: sk2 rotatedOrg_keys toyEnv_keyPairCorrect)
  with new have n: "\<forall>m \<in> set (members rotatedOrg). verify toyEnv rotatedOrg m = Inr ()"
    by blast
  have "rejectsForeign toyEnv sk (publicKey exampleOrg) (signingParams exampleOrg)"
    using toyEnv_rejectsForeign by (simp add: sk2 exampleOrg_def)
  with old have o: "\<forall>m \<in> set (members rotatedOrg). verify toyEnv exampleOrg m =
               Inl (Err VERIFICATION_ERROR (''Failed to verify public key of '' @ m_name m @ ''!''))"
    by blast
  have mem: "members rotatedOrg ! 0 \<in> set (members rotatedOrg)" "members rotatedOrg ! 1 \<in> set (members rotatedOrg)"
    by (simp_all add: rotatedOrg_members)
  have names: "m_name (members rotatedOrg ! 0) = ''Alice''" "m_name (members rotatedOrg ! 1) = ''Bob''"
    "m_role (members rotatedOrg ! 1) = Suspended"
    by (simp_all add: rotatedOrg_members alice0_def bob_def)
  from n o mem have
    "verify toyEnv rotatedOrg (members rotatedOrg ! 0) = Inr ()"
    "verify toyEnv rotatedOrg (members rotatedOrg ! 1) = Inr ()"
    "verify toyEnv exampleOrg (members rotatedOrg ! 0) =
       Inl (Err VERIFICATION_ERROR (''Failed to verify public key of '' @ m_name (members rotatedOrg ! 0) @ ''!''))"
    "verify toyEnv exampleOrg (members rotatedOrg ! 1) =
       Inl (Err VERIFICATION_ERROR (''Failed to verify public key of '' @ m_name (members rotatedOrg ! 1) @ ''!''))"
    by blast+
  then show ?thesis
    using rotate_example names by simp
qed

subsection \<open>Signing and verifying\<close>



text \<open>
  \<^bold>\<open>Claim C8\<close>, as amended. \<^verbatim>\<open>sign(m)\<close> on a locked organization throws the string
  \<^verbatim>\<open>"Organisation needs to be unlocked first."\<close> whatever the provider is, so the
  provider is not asked. \<^verbatim>\<open>verify(m)\<close> reads neither \<^verbatim>\<open>privateKey\<close> nor
  \<^verbatim>\<open>invitesKey\<close>: locked or unlocked, the organization verifies alike. A verification
  failure is an \<^verbatim>\<open>Err\<close> with the code \<^verbatim>\<open>VERIFICATION_ERROR\<close>; its message carries
  the member's name when the provider rejects the signature, and is the fixed text
  \<^verbatim>\<open>"No signed public key provided!"\<close> when the member has no signature.
\<close>

theorem sign_needs_key_verify_does_not:
  "(privateKey org = None \<longrightarrow> sign env org m = Inl (Thrown ''Organisation needs to be unlocked first.'')) \<and>
   verify env (org\<lparr>privateKey := k, invitesKey := k'\<rparr>) m = verify env org m \<and>
   (m_signature m = None \<longrightarrow>
      verify env org m = Inl (Err VERIFICATION_ERROR ''No signed public key provided!'')) \<and>
   (\<forall>s. m_signature m = Some s \<longrightarrow>
      prov_verify env (publicKey org) s (signedBytes m) (signingParams org) = Inr False \<longrightarrow>
      verify env org m =
        Inl (Err VERIFICATION_ERROR (''Failed to verify public key of '' @ m_name m @ ''!'')))"
  by (simp add: sign_def verify_def split: option.splits)

theorem sign_needs_key_verify_does_not_witness:
  "sign toyEnv lockedOrg alice = Inl (Thrown ''Organisation needs to be unlocked first.'') \<and>
   verify toyEnv lockedOrg alice = verify toyEnv exampleOrg alice \<and>
   verify toyEnv lockedOrg bob = Inl (Err VERIFICATION_ERROR ''No signed public key provided!'') \<and>
   verify toyEnv lockedOrg carol = Inl (Err VERIFICATION_ERROR ''Failed to verify public key of Carol!'')"
proof -
  have k: "privateKey lockedOrg = None"
    by (simp add: lockedOrg_def)
  have b: "m_signature bob = None"
    by (simp add: bob_def)
  have c: "m_signature carol = Some ([1] @ signedBytes carol0)" "m_name carol = ''Carol''"
    "prov_verify toyEnv (publicKey lockedOrg) ([1] @ signedBytes carol0) (signedBytes carol)
       (signingParams lockedOrg) = Inr False"
    by (simp_all add: example_defs roleByte_def)
  from sign_needs_key_verify_does_not [of lockedOrg toyEnv alice None None] k
  have 1: "sign toyEnv lockedOrg alice = Inl (Thrown ''Organisation needs to be unlocked first.'')"
    by blast
  from sign_needs_key_verify_does_not [of exampleOrg toyEnv alice None None]
  have 2: "verify toyEnv lockedOrg alice = verify toyEnv exampleOrg alice"
    by (simp add: lockedOrg_def)
  from sign_needs_key_verify_does_not [of lockedOrg toyEnv bob None None] b
  have 3: "verify toyEnv lockedOrg bob = Inl (Err VERIFICATION_ERROR ''No signed public key provided!'')"
    by blast
  from sign_needs_key_verify_does_not [of lockedOrg toyEnv carol None None] c
  have 4: "verify toyEnv lockedOrg carol = Inl (Err VERIFICATION_ERROR ''Failed to verify public key of Carol!'')"
    by simp
  from 1 2 3 4 show ?thesis by simp
qed

text \<open>
  As written, the claim wants \<^verbatim>\<open>verify\<close> to fail on a locked organization and every
  verification error to carry the member's name. The locked example organization
  verifies Alice, and the error for the unsigned Bob does not name him.
\<close>

theorem verify_on_locked_org_counterexample:
  "privateKey lockedOrg = None \<and> verify toyEnv lockedOrg alice = Inr () \<and>
   m_name bob = ''Bob'' \<and>
   verify toyEnv lockedOrg bob = Inl (Err VERIFICATION_ERROR ''No signed public key provided!'')"
  by (simp add: verify_def example_defs)

text \<open>
  \<^bold>\<open>Claim C9.\<close> The claim wants every change of id, email, role or public key of a
  signed member to make \<^verbatim>\<open>verify\<close> fail until the member is signed again, as the
  comments of \<^verbatim>\<open>sign\<close> and \<^verbatim>\<open>verify\<close> promise for these four fields. The fields are
  appended without lengths or separators, so the end of the id can move to the front
  of the email address and leave the signed bytes as they were: whatever the provider,
  \<^verbatim>\<open>verify\<close> accepts the member after the move if it accepted it before
  (\<open>verify_accepts_moved_bytes\<close>). Ann, signed with the id \<open>ann\<close> and the email address
  \<open>a@example.org\<close>, still verifies with the id \<open>anna\<close> and the email address
  \<open>@example.org\<close>.
\<close>

theorem verify_accepts_moved_letter:
  "sign toyEnv exampleOrg ann = Inr annSigned \<and>
   verify toyEnv exampleOrg annSigned = Inr () \<and>
   m_id annSigned = ''ann'' \<and> m_email annSigned = ''a@example.org'' \<and>
   m_id annMoved = ''anna'' \<and> m_email annMoved = ''@example.org'' \<and>
   m_signature annMoved = m_signature annSigned \<and>
   signedBytes annMoved = signedBytes annSigned \<and>
   verify toyEnv exampleOrg annMoved = Inr ()"
  by (simp add: sign_def verify_def example_defs)

subsection \<open>Access resolver\<close>

text \<open>
  \<^bold>\<open>Claim C4.\<close> \<^verbatim>\<open>canWrite(vault, acc)\<close> is truthy exactly when \<^verbatim>\<open>getMember\<close> finds a
  member for the account, the member is not suspended, and the vault occurs with
  \<^verbatim>\<open>readonly = false\<close> among the member's own assignments or among the assignments of
  a group that lists the account. In particular it is falsy for a suspended member.
\<close>

theorem canWrite_iff:
  "(truthy (canWrite org vault acc) \<longleftrightarrow>
      (\<exists>member. getMember org acc = Some member \<and> m_role member \<noteq> Suspended \<and>
         ((\<exists>v \<in> set (m_vaults member). va_id v = vault \<and> \<not> va_readonly v) \<or>
          (\<exists>g \<in> set (groups org). acc \<in> set (g_members g) \<and>
             (\<exists>v \<in> set (g_vaults g). va_id v = vault \<and> \<not> va_readonly v))))) \<and>
   (\<forall>member. getMember org acc = Some member \<longrightarrow> m_role member = Suspended \<longrightarrow>
      \<not> truthy (canWrite org vault acc))"
proof (cases "getMember org acc")
  case None
  then show ?thesis by (simp add: canWrite_def truthy_def)
next
  case (Some member)
  then have "m_id member = acc" by (simp add: getMember_SomeD)
  with Some show ?thesis
    by (auto simp: canWrite_def truthy_def getGroupsForMember_def list_ex_iff)
qed

theorem canWrite_iff_witness:
  "truthy (canWrite exampleOrg ''v1'' ''alice'') \<and> \<not> truthy (canWrite exampleOrg ''v2'' ''bob'') \<and>
   \<not> truthy (canWrite exampleOrg ''v1'' ''ghost'')"
proof -
  have "\<exists>g \<in> set (groups exampleOrg). ''alice'' \<in> set (g_members g) \<and>
          (\<exists>v \<in> set (g_vaults g). va_id v = ''v1'' \<and> \<not> va_readonly v)"
    by (simp add: exampleOrg_def devs_def)
  moreover have "m_role alice \<noteq> Suspended"
    by (simp add: alice_def alice0_def)
  ultimately have a: "truthy (canWrite exampleOrg ''v1'' ''alice'')"
    using canWrite_iff [of exampleOrg "''v1''" "''alice''"] getMember_example(1) by blast
  have "m_role bob = Suspended"
    by (simp add: bob_def)
  then have b: "\<not> truthy (canWrite exampleOrg ''v2'' ''bob'')"
    using canWrite_iff [of exampleOrg "''v2''" "''bob''"] getMember_example(2) by blast
  have c: "\<not> truthy (canWrite exampleOrg ''v1'' ''ghost'')"
    using canWrite_iff [of exampleOrg "''v1''" "''ghost''"] getMember_example(3) by simp
  from a b c show ?thesis by simp
qed

text \<open>
  \<^bold>\<open>Claim C5.\<close> When \<^verbatim>\<open>getMember\<close> finds a member for the account,
  \<^verbatim>\<open>getVaultsForMember\<close> returns a list without duplicates whose elements are the
  member's own vault ids and the vault ids of the groups that list the account; when
  it finds none, the call throws \<^verbatim>\<open>"A member with this id does not exist!"\<close>. The
  method assigns to no field: it is a function of the organization, which is therefore
  the same after the call.
\<close>

theorem getVaultsForMember_result:
  "case getMember org acc of
     None \<Rightarrow> getVaultsForMember org acc = Inl (Thrown ''A member with this id does not exist!'')
   | Some member \<Rightarrow>
       (\<exists>vs. getVaultsForMember org acc = Inr vs \<and> distinct vs \<and>
          set vs = va_id ` set (m_vaults member) \<union>
                   (\<Union>g \<in> {g \<in> set (groups org). acc \<in> set (g_members g)}. va_id ` set (g_vaults g)))"
proof (cases "getMember org acc")
  case None
  then show ?thesis by (simp add: getVaultsForMember_def)
next
  case (Some member)
  then have "m_id member = acc" by (simp add: getMember_SomeD)
  with Some show ?thesis
    by (auto simp: getVaultsForMember_def set_foldl_nested distinct_foldl_nested set_newSet
          distinct_newSet getGroupsForMember_def list_ex_iff)
qed

theorem getVaultsForMember_result_witness:
  "getVaultsForMember exampleOrg ''ghost'' = Inl (Thrown ''A member with this id does not exist!'') \<and>
   getMember exampleOrg ''bob'' = Some bob \<and>
   set (projr (getVaultsForMember exampleOrg ''bob'')) = {''v1'', ''v2''} \<and>
   distinct (projr (getVaultsForMember exampleOrg ''bob''))"
proof -
  have a: "getVaultsForMember exampleOrg ''ghost'' = Inl (Thrown ''A member with this id does not exist!'')"
    using getVaultsForMember_result [of exampleOrg "''ghost''"] by (simp add: getMember_example)
  from getVaultsForMember_result [of exampleOrg "''bob''"] obtain vs where
    vs: "getVaultsForMember exampleOrg ''bob'' = Inr vs" "distinct vs"
      "set vs = va_id ` set (m_vaults bob) \<union>
         (\<Union>g \<in> {g \<in> set (groups exampleOrg). ''bob'' \<in> set (g_members g)}. va_id ` set (g_vaults g))"
    by (auto simp: getMember_example)
  have "{g \<in> set (groups exampleOrg). ''bob'' \<in> set (g_members g)} = {devs}"
    by (auto simp: exampleOrg_def devs_def)
  with vs(3) have "set vs = {''v1'', ''v2''}"
    by (auto simp: bob_def devs_def)
  with a vs(1,2) show ?thesis
    by (simp add: getMember_example)
qed

text \<open>
  \<^bold>\<open>Claim C10.\<close> A suspended member that \<^verbatim>\<open>getMember\<close> finds under its id, and whose
  id is listed by a group assigned to the vault, is among the accessors of the vault,
  although \<^verbatim>\<open>getMembersForVault\<close> leaves it out.
\<close>

theorem getAccessors_includes_suspended_group_member:
  assumes "getMember org (m_id m) = Some m"
    and "m_role m = Suspended"
    and "g \<in> set (groups org)"
    and "m_id m \<in> set (g_members g)"
    and "\<exists>v \<in> set (g_vaults g). va_id v = vault"
  shows "Some m \<in> set (getAccessors org vault) \<and> m \<notin> set (getMembersForVault org vault)"
proof -
  from assms(3,5) have "g \<in> set (getGroupsForVault org vault)"
    by (auto simp: getGroupsForVault_def list_ex_iff)
  with assms(1,4) have "Some m \<in> set (getAccessors org vault)"
    by (auto simp: set_getAccessors image_iff intro!: bexI [of _ g] bexI [of _ "m_id m"])
  moreover from assms(2) have "m \<notin> set (getMembersForVault org vault)"
    by (simp add: getMembersForVault_def)
  ultimately show ?thesis by simp
qed

theorem getAccessors_includes_suspended_group_member_witness:
  "m_role bob = Suspended \<and> Some bob \<in> set (getAccessors exampleOrg ''v1'') \<and>
   bob \<notin> set (getMembersForVault exampleOrg ''v1'')"
proof -
  have h1: "getMember exampleOrg (m_id bob) = Some bob"
    using getMember_example(2) by (simp add: bob_def)
  have h2: "m_role bob = Suspended"
    by (simp add: bob_def)
  have h3: "devs \<in> set (groups exampleOrg)"
    by (simp add: exampleOrg_def)
  have h4: "m_id bob \<in> set (g_members devs)"
    by (simp add: bob_def devs_def)
  have h5: "\<exists>v \<in> set (g_vaults devs). va_id v = ''v1''"
    by (simp add: devs_def)
  from getAccessors_includes_suspended_group_member [OF h1 h2 h3 h4 h5] h2 show ?thesis
    by simp
qed

text \<open>
  \<^bold>\<open>Claim C6.\<close> The claim wants the ids of a group that have no member record
  filtered out of the accessors. \<^verbatim>\<open>getMembersForGroup\<close> filters them;
  \<^verbatim>\<open>getAccessors\<close> adds the \<^verbatim>\<open>undefined\<close> result of \<^verbatim>\<open>getMember\<close> to the set. For the
  vault \<open>v1\<close> of the example organization, whose group lists the id \<open>ghost\<close>, the
  accessors end with \<^verbatim>\<open>undefined\<close>.
\<close>

theorem getAccessors_dangling_id:
  "getMember exampleOrg ''ghost'' = None \<and>
   getAccessors exampleOrg ''v1'' = [Some alice, Some bob, None] \<and>
   getMembersForGroup exampleOrg devs = [bob, alice]"
  by (simp add: getAccessors_def getAccessorsRefs_def getMembersForVaultRefs_def getGroupsForVault_def
        getMemberRef_def getMembersForGroup_def getMember_def newSet_def setAdd_def deref_def
        example_defs upt_rec)

subsection \<open>Locking\<close>

text \<open>
  \<^bold>\<open>Claim C7.\<close> The claim wants \<^verbatim>\<open>lock()\<close> to erase both keys and to lock every
  invite. The keys are erased; the invites are left as they were, because the callback
  of \<^verbatim>\<open>forEach\<close> names \<^verbatim>\<open>invite.lock\<close> without calling it. The invite of the example
  organization still holds its secret after \<^verbatim>\<open>lock()\<close>, where locking it would have
  cleared the flag.
\<close>

theorem lock_leaves_invites_unlocked:
  "privateKey (lock toyEnv exampleOrg) = None \<and> invitesKey (lock toyEnv exampleOrg) = None \<and>
   invites (lock toyEnv exampleOrg) = [True] \<and>
   map (invite_lock toyEnv) (invites exampleOrg) = [False]"
  by (simp add: lock_def example_defs)

end
